theory Spec2Isabelle
  imports Main
begin

section \<open>Data model of package plan (plan/makefile.go)\<close>

text \<open>
  Go strings are byte sequences and \<open>len\<close> counts bytes; they are modelled as
  \<open>string\<close> (a list of 8-bit characters), so \<open>length\<close> is Go's \<open>len\<close>.
  An \<open>error\<close> value is represented by its message, a panic by a value of type
  \<open>panic\<close>, and a function that may fail returns a sum with the failure on the left.
\<close>

record Options =
  ToolchainExecOpt :: string
  NoCache :: bool

text \<open>
  \<open>unit.SourceUnit\<close> is declared in another package; the only field this file reads is
  \<open>CachedRev\<close>.
\<close>

record SourceUnit =
  CachedRev :: string

datatype panic = NilDereference | BoundsError | PanicMsg string

datatype failure = Error string | Panic panic

text \<open>
  \<open>makex.Rule\<close> is an interface with the methods \<open>Target\<close>, \<open>Prereqs\<close> and
  \<open>Recipes\<close>. A rule may also implement \<open>SourceUnit() *unit.SourceUnit\<close>, which
  \<open>CreateMakefile\<close> probes with a type assertion. The dynamic types are:
  \<^item> \<open>BasicRule\<close>: \<open>makex.BasicRule\<close> (target, prerequisites, recipes), which has no
    \<open>SourceUnit\<close> method, and stands for every rule type without one;
  \<^item> \<open>UnitRule\<close>: a rule type of a rule maker that has the \<open>SourceUnit\<close> method; the
    pointer it returns may be nil (\<open>None\<close>);
  \<^item> \<open>cachedRule\<close>: the struct of this file (cachedPath, target, unit, prereqs).
  The methods of a rule are taken to be pure, and a rule in a list is not the nil
  interface value.
\<close>

datatype Rule =
    BasicRule string "string list" "string list"
  | UnitRule string "string list" "string list" "SourceUnit option"
  | cachedRule string string "SourceUnit option" "string list"

fun Target :: "Rule \<Rightarrow> string" where
  "Target (BasicRule t ps rs) = t"
| "Target (UnitRule t ps rs u) = t"
| "Target (cachedRule cp t u ps) = t"

fun Prereqs :: "Rule \<Rightarrow> string list" where
  "Prereqs (BasicRule t ps rs) = ps"
| "Prereqs (UnitRule t ps rs u) = ps"
| "Prereqs (cachedRule cp t u ps) = ps"

fun Recipes :: "Rule \<Rightarrow> string list" where
  "Recipes (BasicRule t ps rs) = rs"
| "Recipes (UnitRule t ps rs u) = rs"
| "Recipes (cachedRule cp t u ps) = [''cp '' @ cp @ '' '' @ t]"

text \<open>
  The type assertion \<open>rule.(interface { SourceUnit() *unit.SourceUnit })\<close> followed by
  the call of the method: \<open>None\<close> when the assertion fails (\<open>ok\<close> is false),
  otherwise the pointer returned, which is \<open>None\<close> when nil. (The name \<open>SourceUnit\<close>
  is taken by the record.)
\<close>

fun SourceUnit_of :: "Rule \<Rightarrow> SourceUnit option option" where
  "SourceUnit_of (BasicRule t ps rs) = None"
| "SourceUnit_of (UnitRule t ps rs u) = Some u"
| "SourceUnit_of (cachedRule cp t u ps) = Some u"

fun is_cachedRule :: "Rule \<Rightarrow> bool" where
  "is_cachedRule (cachedRule cp t u ps) = True"
| "is_cachedRule r = False"

record Makefile =
  Rules :: "Rule list"

text \<open>
  A rule maker receives the tree configuration (opaque, type \<open>'t\<close>), the build-data
  directory, the rules made so far and the options, and returns its rules or an error
  (its message). A maker is taken to be a function of its arguments.
\<close>

type_synonym 't RuleMaker = "'t \<Rightarrow> string \<Rightarrow> Rule list \<Rightarrow> Options \<Rightarrow> string + Rule list"

section \<open>The registry of rule makers\<close>

text \<open>The three package-level variables, as one state record.\<close>

record 't Registry =
  RuleMakers :: "string \<rightharpoonup> 't RuleMaker"
  ruleMakerNames :: "string list"
  orderedRuleMakers :: "'t RuleMaker list"

definition emptyRegistry :: "'t Registry" where
  "emptyRegistry = \<lparr>RuleMakers = Map.empty, ruleMakerNames = [], orderedRuleMakers = []\<rparr>"

text \<open>
  \<open>RegisterRuleMaker(name, r)\<close>; the argument \<open>r\<close> may be nil (\<open>None\<close>). The function
  tests for a duplicate name, then for a nil maker, and then stores the maker.
\<close>

definition RegisterRuleMaker ::
  "string \<Rightarrow> 't RuleMaker option \<Rightarrow> 't Registry \<Rightarrow> panic + 't Registry" where
  "RegisterRuleMaker name r reg =
     (case RuleMakers reg name of
        Some dup \<Rightarrow> Inl (PanicMsg (''build: Register called twice for target lister '' @ name))
      | None \<Rightarrow>
         (case r of
            None \<Rightarrow> Inl (PanicMsg ''build: Register target is nil'')
          | Some f \<Rightarrow>
              Inr (reg\<lparr>RuleMakers := (RuleMakers reg)(name \<mapsto> f),
                       ruleMakerNames := ruleMakerNames reg @ [name],
                       orderedRuleMakers := orderedRuleMakers reg @ [f]\<rparr>)))"

section \<open>Strings and paths\<close>

text \<open>\<open>strings.Split(s, sep)\<close> for a separator of one byte, and \<open>strings.Join\<close>.\<close>

fun strings_Split :: "string \<Rightarrow> char \<Rightarrow> string list" where
  "strings_Split [] sep = [[]]"
| "strings_Split (x # xs) sep =
     (if x = sep then [] # strings_Split xs sep
      else (case strings_Split xs sep of
              [] \<Rightarrow> [[x]]
            | y # ys \<Rightarrow> (x # y) # ys))"

fun strings_Join :: "string list \<Rightarrow> string \<Rightarrow> string" where
  "strings_Join [] sep = []"
| "strings_Join [x] sep = x"
| "strings_Join (x # y # ys) sep = x @ sep @ strings_Join (y # ys) sep"

section \<open>The collaborators of CreateMakefile\<close>

text \<open>
  What \<open>CreateMakefile\<close> reads from outside this file is taken as a parameter:
  the constant \<open>buildstore.BuildDataDirName\<close>, the package variable
  \<open>currentRepo.VCSType\<close>, \<open>filepath.Join\<close> on two elements, and the functions
  \<open>listRevisions\<close>, \<open>buildstore.BuildDataExistsForCommit\<close> and
  \<open>changedFilesFromCurrentRev\<close>. The build store is opaque (type \<open>'bs\<close>).
\<close>

record 'bs World =
  BuildDataDirName :: string
  currentRepo_VCSType :: string
  filepath_Join :: "string \<Rightarrow> string \<Rightarrow> string"
  listRevisions :: "string \<Rightarrow> string \<Rightarrow> string + string list"
  BuildDataExistsForCommit :: "'bs \<Rightarrow> string \<Rightarrow> bool \<times> string option"
  changedFilesFromCurrentRev :: "string \<Rightarrow> string \<Rightarrow> string \<Rightarrow> string + string list"

section \<open>CreateMakefile\<close>

subsection \<open>Looking for a previous build (lines 94 to 115)\<close>

text \<open>
  The loop over \<open>revs[1:]\<close> (\<open>revi\<close> is \<open>revs[i]\<close>), with the pair
  \<open>(prevRev, changedFiles)\<close> as its state: a revision without build data is skipped,
  a failing diff leaves the loop, and a revision with build data and a diff is
  recorded, after which the loop goes on. The error of \<open>BuildDataExistsForCommit\<close>
  is dropped, as in line 101. The two \<open>log.Println\<close> calls write to the log only
  and are left out.
\<close>

fun scanRevisions ::
  "'bs World \<Rightarrow> 'bs \<Rightarrow> string list \<Rightarrow> string \<times> string list \<Rightarrow> string \<times> string list" where
  "scanRevisions W buildStore [] st = st"
| "scanRevisions W buildStore (revi # revs) st =
     (if \<not> fst (BuildDataExistsForCommit W buildStore revi)
      then scanRevisions W buildStore revs st
      else (case changedFilesFromCurrentRev W (currentRepo_VCSType W) (BuildDataDirName W) revi of
              Inl err \<Rightarrow> st
            | Inr files \<Rightarrow> scanRevisions W buildStore revs (revi, files)))"

definition findPrevRev :: "'bs World \<Rightarrow> 'bs \<Rightarrow> string \<times> string list" where
  "findPrevRev W buildStore =
     (case listRevisions W (currentRepo_VCSType W) (BuildDataDirName W) of
        Inl err \<Rightarrow> ([], [])
      | Inr revs \<Rightarrow> scanRevisions W buildStore (drop 1 revs) ([], []))"

subsection \<open>Replacing rules (lines 117 to 149)\<close>

text \<open>
  The condition of line 134. Go evaluates it from left to right: for more than two
  segments it is true at once; otherwise \<open>p[0:2]\<close> is taken, which panics when \<open>p\<close>
  has one element (\<open>strings.Split\<close> returns a slice whose capacity is its length).
\<close>

definition prefixedByBuildDataDir :: "string list \<Rightarrow> string \<Rightarrow> panic + bool" where
  "prefixedByBuildDataDir p buildDataDir =
     (if length p > 2 then Inr True
      else if length p < 2 then Inl BoundsError
      else Inr (strings_Join (take 2 p) ''/'' = buildDataDir \<or> length (p ! 1) = 40))"

definition cachedPathOf :: "string \<Rightarrow> string \<Rightarrow> string \<Rightarrow> panic + string" where
  "cachedPathOf buildDataDir tgt cachedRev =
     (let p = strings_Split tgt CHR ''/'' in
      case prefixedByBuildDataDir p buildDataDir of
        Inl e \<Rightarrow> Inl e
      | Inr True \<Rightarrow> Inr (strings_Join (p[1 := cachedRev]) ''/'')
      | Inr False \<Rightarrow> Inr (strings_Join ([''..'', cachedRev] @ p) ''/''))"

text \<open>The body of the loop of line 117: the rule that ends up in \<open>rules[i]\<close>.\<close>

definition replaceRule :: "string \<Rightarrow> Rule \<Rightarrow> panic + Rule" where
  "replaceRule buildDataDir rule =
     (case SourceUnit_of rule of
        None \<Rightarrow> Inr rule
      | Some None \<Rightarrow> Inl NilDereference
      | Some (Some u) \<Rightarrow>
          (if CachedRev u = [] then Inr rule
           else (case cachedPathOf buildDataDir (Target rule) (CachedRev u) of
                   Inl e \<Rightarrow> Inl e
                 | Inr cp \<Rightarrow> Inr (cachedRule cp (Target rule) (Some u) (Prereqs rule)))))"

fun replaceRules :: "string \<Rightarrow> Rule list \<Rightarrow> panic + Rule list" where
  "replaceRules buildDataDir [] = Inr []"
| "replaceRules buildDataDir (rule # rules) =
     (case replaceRule buildDataDir rule of
        Inl e \<Rightarrow> Inl e
      | Inr rule' \<Rightarrow>
          (case replaceRules buildDataDir rules of
             Inl e \<Rightarrow> Inl e
           | Inr rules' \<Rightarrow> Inr (rule' # rules')))"

text \<open>
  The block under \<open>if !opt.NoCache\<close>: \<open>prevRev\<close> and \<open>changedFiles\<close> are computed, and
  the replacement loop that follows reads neither.
\<close>

definition cacheRewrite :: "'bs World \<Rightarrow> 'bs \<Rightarrow> string \<Rightarrow> Rule list \<Rightarrow> panic + Rule list" where
  "cacheRewrite W buildStore buildDataDir rules =
     (case findPrevRev W buildStore of
        (prevRev, changedFiles) \<Rightarrow> replaceRules buildDataDir rules)"

subsection \<open>The loop over the rule makers (lines 83 to 152)\<close>

text \<open>
  The state of the loop is the index \<open>i\<close>, the rules \<open>allRules\<close> and, as a ghost
  variable, the list of the indices of the makers called so far. The result is that
  list with either the failure that ended the loop or the final \<open>allRules\<close>.
\<close>

fun makerLoop ::
  "'bs World \<Rightarrow> 'bs \<Rightarrow> 't \<Rightarrow> Options \<Rightarrow> string \<Rightarrow> string list \<Rightarrow> 't RuleMaker list \<Rightarrow>
   nat \<Rightarrow> Rule list \<Rightarrow> nat list \<Rightarrow> nat list \<times> (failure + Rule list)" where
  "makerLoop W buildStore c opt buildDataDir names [] i allRules called =
     (called, Inr allRules)"
| "makerLoop W buildStore c opt buildDataDir names (r # rs) i allRules called =
     (if \<not> i < length names then (called, Inl (Panic BoundsError))
      else
        (let name = names ! i in
         case r c buildDataDir allRules opt of
           Inl err \<Rightarrow> (called @ [i], Inl (Error (''rule maker '' @ name @ '': '' @ err)))
         | Inr rules \<Rightarrow>
             (case (if \<not> NoCache opt then cacheRewrite W buildStore buildDataDir rules
                    else Inr rules) of
                Inl e \<Rightarrow> (called @ [i], Inl (Panic e))
              | Inr rules' \<Rightarrow>
                  makerLoop W buildStore c opt buildDataDir names rs (Suc i)
                    (allRules @ rules') (called @ [i]))))"

definition CreateMakefile ::
  "'bs World \<Rightarrow> 't Registry \<Rightarrow> 'bs \<Rightarrow> string \<Rightarrow> string \<Rightarrow> 't \<Rightarrow> Options \<Rightarrow>
   nat list \<times> (failure + Makefile)" where
  "CreateMakefile W reg buildStore commitID vcsType c opt =
     (let buildDataDir = filepath_Join W (BuildDataDirName W) commitID in
      case makerLoop W buildStore c opt buildDataDir
             (ruleMakerNames reg) (orderedRuleMakers reg) 0 [] [] of
        (called, Inl e) \<Rightarrow> (called, Inl e)
      | (called, Inr allRules) \<Rightarrow>
          (let allTargets = map Target allRules;
               allRule = BasicRule ''all'' allTargets [];
               allRules1 = allRule # allRules;
               allRules2 = allRules1 @ [BasicRule ''.DELETE_ON_ERROR'' [] []]
           in (called, Inr \<lparr>Rules = allRules2\<rparr>)))"

section \<open>The registry as RegisterRuleMaker builds it\<close>

text \<open>
  The three variables agree: the names are distinct, they are the keys of the map, and
  the i-th name is mapped to the i-th maker.
\<close>

definition registered :: "'t Registry \<Rightarrow> bool" where
  "registered reg \<longleftrightarrow>
     distinct (ruleMakerNames reg) \<and>
     dom (RuleMakers reg) = set (ruleMakerNames reg) \<and>
     map (RuleMakers reg) (ruleMakerNames reg) = map Some (orderedRuleMakers reg)"

section \<open>Example inputs\<close>

text \<open>
  A world whose revision listing, build-data test and diff are given, with
  \<open>filepath.Join\<close> on two clean, non-empty elements.
\<close>

definition exWorld ::
  "string + string list \<Rightarrow> (string \<Rightarrow> bool) \<Rightarrow> (string \<Rightarrow> string + string list) \<Rightarrow> unit World" where
  "exWorld revs present diff =
     \<lparr>BuildDataDirName = ''.srclib-cache'',
      currentRepo_VCSType = ''git'',
      filepath_Join = (\<lambda>a b. a @ ''/'' @ b),
      listRevisions = (\<lambda>vcs dir. revs),
      BuildDataExistsForCommit = (\<lambda>store commit. (present commit, None)),
      changedFilesFromCurrentRev = (\<lambda>vcs dir commit. diff commit)\<rparr>"

definition worldNoListing :: "unit World" where
  "worldNoListing = exWorld (Inl ''not a repository'') (\<lambda>commit. True) (\<lambda>commit. Inr [])"

definition worldNoOutput :: "unit World" where
  "worldNoOutput = exWorld (Inr [''c1'', ''c0'']) (\<lambda>commit. False) (\<lambda>commit. Inr [])"

definition worldNoDiff :: "unit World" where
  "worldNoDiff = exWorld (Inr [''c1'', ''c0'']) (\<lambda>commit. True) (\<lambda>commit. Inl ''diff failed'')"

definition worldPrior :: "unit World" where
  "worldPrior = exWorld (Inr [''c1'', ''c0'']) (\<lambda>commit. commit = ''c0'') (\<lambda>commit. Inr [''b.go''])"

definition registryOf :: "(string \<times> 't RuleMaker) list \<Rightarrow> 't Registry" where
  "registryOf nms =
     \<lparr>RuleMakers = map_of nms, ruleMakerNames = map fst nms, orderedRuleMakers = map snd nms\<rparr>"

definition exRev :: string where
  "exRev = ''0123456789abcdef0123456789abcdef01234567''"

definition makerA :: "unit RuleMaker" where
  "makerA c dataDir existing opt = Inr [BasicRule ''out/a.json'' [] [''gen a'']]"

definition makerB :: "unit RuleMaker" where
  "makerB c dataDir existing opt =
     Inr [UnitRule (dataDir @ ''/out/b.json'') [''b.go''] [''gen b''] (Some \<lparr>CachedRev = exRev\<rparr>)]"

definition makerFlat :: "unit RuleMaker" where
  "makerFlat c dataDir existing opt =
     Inr [UnitRule ''b.json'' [''b.go''] [''gen b''] (Some \<lparr>CachedRev = ''c0''\<rparr>)]"

definition makerNil :: "unit RuleMaker" where
  "makerNil c dataDir existing opt = Inr [UnitRule ''out/n.json'' [] [''gen n''] None]"

definition makerFail :: "unit RuleMaker" where
  "makerFail c dataDir existing opt = Inl ''no toolchain''"

definition cacheOn :: Options where
  "cacheOn = \<lparr>ToolchainExecOpt = [], NoCache = False\<rparr>"

definition cacheOff :: Options where
  "cacheOff = \<lparr>ToolchainExecOpt = [], NoCache = True\<rparr>"

lemmas ex_defs = exWorld_def worldNoListing_def worldNoOutput_def worldNoDiff_def worldPrior_def
  registryOf_def exRev_def makerA_def makerB_def makerFlat_def makerNil_def makerFail_def
  cacheOn_def cacheOff_def

lemmas run_defs = CreateMakefile_def cacheRewrite_def findPrevRev_def replaceRule_def
  cachedPathOf_def prefixedByBuildDataDir_def Let_def

lemma exDir: "filepath_Join worldPrior (BuildDataDirName worldPrior) ''c1'' = ''.srclib-cache/c1''"
  by (simp add: worldPrior_def exWorld_def)

section \<open>Properties of the parts\<close>

subsection \<open>Splitting a path\<close>

lemma length_Split: "length (strings_Split s c) = Suc (count_list s c)"
  by (induction s) (auto split: list.splits)

lemma Split_two_iff: "2 \<le> length (strings_Split s c) \<longleftrightarrow> c \<in> set s"
  using count_list_0_iff[of s c] by (auto simp: length_Split)

subsection \<open>The registry\<close>

lemma registered_empty: "registered emptyRegistry"
  by (simp add: registered_def emptyRegistry_def)

lemma RegisterRuleMaker_registered:
  assumes "registered reg" and "RegisterRuleMaker name r reg = Inr reg'"
  shows "registered reg'"
proof -
  from assms(2) obtain f where
    fresh: "RuleMakers reg name = None" and
    reg': "reg' = reg\<lparr>RuleMakers := (RuleMakers reg)(name \<mapsto> f),
                       ruleMakerNames := ruleMakerNames reg @ [name],
                       orderedRuleMakers := orderedRuleMakers reg @ [f]\<rparr>"
    by (auto simp: RegisterRuleMaker_def split: option.splits)
  from assms(1) have "dom (RuleMakers reg) = set (ruleMakerNames reg)"
    by (simp add: registered_def)
  with fresh have notin: "name \<notin> set (ruleMakerNames reg)"
    by (metis domIff)
  then have "map ((RuleMakers reg)(name \<mapsto> f)) (ruleMakerNames reg) =
             map (RuleMakers reg) (ruleMakerNames reg)"
    by (intro map_cong) auto
  with assms(1) notin show ?thesis
    by (simp add: registered_def reg')
qed

lemma registered_nth:
  assumes "registered reg" and "k < length (orderedRuleMakers reg)"
  shows "k < length (ruleMakerNames reg) \<and>
         RuleMakers reg (ruleMakerNames reg ! k) = Some (orderedRuleMakers reg ! k)"
proof -
  from assms(1) have eq: "map (RuleMakers reg) (ruleMakerNames reg) = map Some (orderedRuleMakers reg)"
    by (simp add: registered_def)
  then have len: "length (ruleMakerNames reg) = length (orderedRuleMakers reg)"
    by (rule map_eq_imp_length_eq)
  with assms(2) have k: "k < length (ruleMakerNames reg)" by simp
  from eq have "map (RuleMakers reg) (ruleMakerNames reg) ! k = map Some (orderedRuleMakers reg) ! k"
    by simp
  with k assms(2) show ?thesis by simp
qed

subsection \<open>The loop over the makers\<close>

lemma makerLoop_append:
  "makerLoop W bs c opt dir names (ms1 @ ms2) i acc called =
     (case makerLoop W bs c opt dir names ms1 i acc called of
        (tr, Inl f) \<Rightarrow> (tr, Inl f)
      | (tr, Inr acc') \<Rightarrow> makerLoop W bs c opt dir names ms2 (i + length ms1) acc' tr)"
  by (induction ms1 arbitrary: i acc called) (auto split: sum.splits prod.splits simp: Let_def)

lemma makerLoop_called:
  "makerLoop W bs c opt dir names ms i acc called = (tr, Inr allRules) \<Longrightarrow>
     tr = called @ [i ..< i + length ms]"
proof (induction ms arbitrary: i acc called)
  case Nil
  then show ?case by simp
next
  case (Cons m ms)
  then show ?case
    by (auto split: sum.splits if_splits
        simp: Let_def upt_conv_Cons simp del: upt_Suc dest!: Cons.IH)
qed

lemma CreateMakefile_reaches:
  assumes "orderedRuleMakers reg = ms1 @ m # ms2"
    and "makerLoop W bs c opt (filepath_Join W (BuildDataDirName W) commitID)
           (ruleMakerNames reg) ms1 0 [] [] = (tr, Inr acc)"
  shows "CreateMakefile W reg bs commitID vcsType c opt =
     (case makerLoop W bs c opt (filepath_Join W (BuildDataDirName W) commitID)
             (ruleMakerNames reg) (m # ms2) (length ms1) acc tr of
        (called, Inl e) \<Rightarrow> (called, Inl e)
      | (called, Inr allRules) \<Rightarrow>
          (called, Inr \<lparr>Rules = BasicRule ''all'' (map Target allRules) [] # allRules @
                      [BasicRule ''.DELETE_ON_ERROR'' [] []]\<rparr>))"
  using assms by (simp add: CreateMakefile_def makerLoop_append Let_def)

subsection \<open>Replacing rules\<close>

lemma replaceRule_cases:
  "replaceRule dir rule = Inr rule' \<Longrightarrow>
     rule' = rule \<or>
     (\<exists>u cp. SourceUnit_of rule = Some (Some u) \<and> CachedRev u \<noteq> [] \<and>
        cachedPathOf dir (Target rule) (CachedRev u) = Inr cp \<and>
        rule' = cachedRule cp (Target rule) (Some u) (Prereqs rule))"
  by (auto simp: replaceRule_def split: option.splits if_splits sum.splits)

lemma replaceRules_nth:
  "replaceRules dir rules = Inr rules' \<Longrightarrow>
     length rules' = length rules \<and>
     (\<forall>i<length rules. replaceRule dir (rules ! i) = Inr (rules' ! i))"
proof (induction rules arbitrary: rules')
  case Nil
  then show ?case by simp
next
  case (Cons r rs)
  then show ?case
    by (auto split: sum.splits simp: nth_Cons split: nat.splits)
qed

lemma replaceRules_panic:
  "rule \<in> set rules \<Longrightarrow> replaceRule dir rule = Inl e \<Longrightarrow> \<exists>p. replaceRules dir rules = Inl p"
  by (induction rules) (auto split: sum.splits)

lemma replaceRules_total:
  "\<forall>rule\<in>set rules. \<exists>rule'. replaceRule dir rule = Inr rule' \<Longrightarrow>
     \<exists>rules'. replaceRules dir rules = Inr rules'"
  by (induction rules) (fastforce split: sum.splits)+

lemma cachedPathOf_total_iff:
  "(\<exists>cp. cachedPathOf dir tgt cachedRev = Inr cp) \<longleftrightarrow> CHR ''/'' \<in> set tgt"
  using Split_two_iff[of tgt "CHR ''/''"]
  by (auto simp: cachedPathOf_def prefixedByBuildDataDir_def Let_def split: sum.splits bool.splits if_splits)

lemma cachedPathOf_one_segment:
  "CHR ''/'' \<notin> set tgt \<Longrightarrow> cachedPathOf dir tgt cachedRev = Inl BoundsError"
  using Split_two_iff[of tgt "CHR ''/''"]
  by (auto simp: cachedPathOf_def prefixedByBuildDataDir_def Let_def split: sum.splits bool.splits if_splits)

lemma cacheRewrite_eq: "cacheRewrite W bs dir rules = replaceRules dir rules"
  by (simp add: cacheRewrite_def split: prod.splits)

lemma replaceRule_eligible:
  assumes "SourceUnit_of rule = Some (Some u)" and "CachedRev u \<noteq> []"
    and "CHR ''/'' \<in> set (Target rule)"
    and "p = strings_Split (Target rule) CHR ''/''"
  shows "replaceRule dir rule =
           Inr (cachedRule
                  (strings_Join
                     (if length p > 2 \<or> strings_Join (take 2 p) ''/'' = dir \<or> length (p ! 1) = 40
                      then p[1 := CachedRev u] else [''..'', CachedRev u] @ p) ''/'')
                  (Target rule) (Some u) (Prereqs rule)) \<and>
         Recipes (cachedRule
                  (strings_Join
                     (if length p > 2 \<or> strings_Join (take 2 p) ''/'' = dir \<or> length (p ! 1) = 40
                      then p[1 := CachedRev u] else [''..'', CachedRev u] @ p) ''/'')
                  (Target rule) (Some u) (Prereqs rule)) =
           [''cp '' @ strings_Join
                     (if length p > 2 \<or> strings_Join (take 2 p) ''/'' = dir \<or> length (p ! 1) = 40
                      then p[1 := CachedRev u] else [''..'', CachedRev u] @ p) ''/'' @ '' '' @ Target rule]"
  using assms Split_two_iff[of "Target rule" "CHR ''/''"]
  by (auto simp: replaceRule_def cachedPathOf_def prefixedByBuildDataDir_def Let_def)

lemma replaceRule_panic_kind:
  "replaceRule dir rule = Inl p \<Longrightarrow> p = NilDereference \<or> p = BoundsError"
  by (auto simp: replaceRule_def cachedPathOf_def prefixedByBuildDataDir_def Let_def
      split: option.splits if_splits sum.splits bool.splits)

lemma replaceRules_panic_kind:
  "replaceRules dir rules = Inl p \<Longrightarrow> p = NilDereference \<or> p = BoundsError"
  by (induction rules) (auto split: sum.splits dest: replaceRule_panic_kind)

lemma CreateMakefile_batch_panic:
  assumes "\<not> NoCache opt"
    and "orderedRuleMakers reg = ms1 @ m # ms2"
    and "length ms1 < length (ruleMakerNames reg)"
    and "makerLoop W bs c opt (filepath_Join W (BuildDataDirName W) commitID)
           (ruleMakerNames reg) ms1 0 [] [] = (tr, Inr acc)"
    and "m c (filepath_Join W (BuildDataDirName W) commitID) acc opt = Inr rules"
    and "rule \<in> set rules"
    and "replaceRule (filepath_Join W (BuildDataDirName W) commitID) rule = Inl e"
  shows "\<exists>p. CreateMakefile W reg bs commitID vcsType c opt = (tr @ [length ms1], Inl (Panic p)) \<and>
             (p = NilDereference \<or> p = BoundsError)"
proof -
  from replaceRules_panic[OF assms(6,7)] obtain p where
    p: "replaceRules (filepath_Join W (BuildDataDirName W) commitID) rules = Inl p"
    by blast
  from assms(1,3,5) p
  have "CreateMakefile W reg bs commitID vcsType c opt = (tr @ [length ms1], Inl (Panic p))"
    by (simp add: CreateMakefile_reaches[OF assms(2,4)] cacheRewrite_eq)
  with replaceRules_panic_kind[OF p] show ?thesis by blast
qed

lemma makerLoop_NoCache:
  assumes "NoCache opt"
    and "\<forall>m\<in>set ms. \<forall>existing rules.
           (\<forall>r\<in>set existing. \<not> is_cachedRule r) \<longrightarrow> m c dir existing opt = Inr rules \<longrightarrow>
           (\<forall>r\<in>set rules. \<not> is_cachedRule r)"
    and "\<forall>r\<in>set acc. \<not> is_cachedRule r"
    and "makerLoop W bs c opt dir names ms i acc called = (tr, Inr allRules)"
  shows "\<forall>r\<in>set allRules. \<not> is_cachedRule r"
  using assms(2-4)
proof (induction ms arbitrary: i acc called)
  case Nil
  then show ?case by simp
next
  case (Cons m ms)
  from Cons.prems(3) assms(1) obtain rules where
    m: "m c dir acc opt = Inr rules" and
    rest: "makerLoop W bs c opt dir names ms (Suc i) (acc @ rules) (called @ [i]) = (tr, Inr allRules)"
    by (auto split: sum.splits if_splits simp: Let_def)
  from Cons.prems(1,2) m have "\<forall>r\<in>set rules. \<not> is_cachedRule r"
    by (meson list.set_intros(1))
  with Cons.prems(2) have acc': "\<forall>r\<in>set (acc @ rules). \<not> is_cachedRule r"
    by auto
  from Cons.prems(1) have ms: "\<forall>m\<in>set ms. \<forall>existing rules.
           (\<forall>r\<in>set existing. \<not> is_cachedRule r) \<longrightarrow> m c dir existing opt = Inr rules \<longrightarrow>
           (\<forall>r\<in>set rules. \<not> is_cachedRule r)"
    by simp
  from Cons.IH[OF ms acc' rest] show ?case .
qed

lemma CreateMakefile_Inr:
  assumes "snd (CreateMakefile W reg bs commitID vcsType c opt) = Inr mf"
  shows "\<exists>tr allRules.
           makerLoop W bs c opt (filepath_Join W (BuildDataDirName W) commitID)
             (ruleMakerNames reg) (orderedRuleMakers reg) 0 [] [] = (tr, Inr allRules) \<and>
           Rules mf = BasicRule ''all'' (map Target allRules) [] # allRules @
                        [BasicRule ''.DELETE_ON_ERROR'' [] []]"
  using assms
  by (auto simp: CreateMakefile_def Let_def split: prod.splits sum.splits)

lemma makerLoop_batches:
  "makerLoop W bs c opt dir names ms i acc called = (tr, Inr allRules) \<Longrightarrow>
     \<exists>batches. length batches = length ms \<and> allRules = acc @ concat batches \<and>
       (\<forall>k<length ms. \<exists>rules.
          (ms ! k) c dir (acc @ concat (take k batches)) opt = Inr rules \<and>
          (if \<not> NoCache opt then cacheRewrite W bs dir rules else Inr rules) = Inr (batches ! k))"
proof (induction ms arbitrary: i acc called)
  case Nil
  then show ?case by simp
next
  case (Cons m ms)
  from Cons.prems obtain rules rules' where
    m: "m c dir acc opt = Inr rules" and
    rw: "(if \<not> NoCache opt then cacheRewrite W bs dir rules else Inr rules) = Inr rules'" and
    rest: "makerLoop W bs c opt dir names ms (Suc i) (acc @ rules') (called @ [i]) = (tr, Inr allRules)"
    by (auto split: sum.splits if_splits simp: Let_def)
  from Cons.IH[OF rest] obtain batches where
    len: "length batches = length ms" and
    all: "allRules = (acc @ rules') @ concat batches" and
    each: "\<forall>k<length ms. \<exists>rules.
          (ms ! k) c dir ((acc @ rules') @ concat (take k batches)) opt = Inr rules \<and>
          (if \<not> NoCache opt then cacheRewrite W bs dir rules else Inr rules) = Inr (batches ! k)"
    by blast
  have "\<forall>k<length (m # ms). \<exists>rules.
          ((m # ms) ! k) c dir (acc @ concat (take k (rules' # batches))) opt = Inr rules \<and>
          (if \<not> NoCache opt then cacheRewrite W bs dir rules else Inr rules) = Inr ((rules' # batches) ! k)"
  proof (intro allI impI)
    fix k assume k: "k < length (m # ms)"
    show "\<exists>rules. ((m # ms) ! k) c dir (acc @ concat (take k (rules' # batches))) opt = Inr rules \<and>
          (if \<not> NoCache opt then cacheRewrite W bs dir rules else Inr rules) = Inr ((rules' # batches) ! k)"
    proof (cases k)
      case 0
      with m rw show ?thesis by auto
    next
      case (Suc j)
      with k have "j < length ms" by simp
      with each Suc show ?thesis by auto
    qed
  qed
  with len all show ?case
    by (intro exI[of _ "rules' # batches"]) simp
qed

section \<open>The registry: duplicate, nil and empty registrations\<close>

text \<open>
  C7: \<open>RegisterRuleMaker\<close> called with an empty name panics. The function has no test of
  the name: on the empty registry, the empty name and a maker that is not nil, it
  returns normally and the maker is registered under the empty name.
\<close>

theorem RegisterRuleMaker_accepts_empty_name:
  "RegisterRuleMaker [] (Some makerA) emptyRegistry =
     Inr \<lparr>RuleMakers = [[] \<mapsto> makerA], ruleMakerNames = [[]], orderedRuleMakers = [makerA]\<rparr>"
  by (simp add: RegisterRuleMaker_def emptyRegistry_def)

text \<open>
  C8: \<open>RegisterRuleMaker\<close> panics when a maker is already registered under the name
  (with the message of line 37), and it panics when the maker is nil, whatever the
  name and the registry are.
\<close>

theorem RegisterRuleMaker_panics:
  "(RuleMakers reg name \<noteq> None \<longrightarrow>
      RegisterRuleMaker name r reg =
        Inl (PanicMsg (''build: Register called twice for target lister '' @ name))) \<and>
   (\<exists>p. RegisterRuleMaker name None reg = Inl p)"
  by (auto simp: RegisterRuleMaker_def split: option.splits)

theorem RegisterRuleMaker_panics_witness:
  "RuleMakers (registryOf [(''A'', makerA)]) ''A'' \<noteq> None \<and>
   RegisterRuleMaker ''A'' (Some makerB) (registryOf [(''A'', makerA)]) =
     Inl (PanicMsg ''build: Register called twice for target lister A'') \<and>
   (\<exists>p. RegisterRuleMaker ''B'' None (registryOf [(''A'', makerA)]) = Inl p)"
  using RegisterRuleMaker_panics [of "registryOf [(''A'', makerA)]" "''A''" "Some makerB"]
    RegisterRuleMaker_panics [of "registryOf [(''A'', makerA)]" "''B''" "Some makerB"]
  by (simp add: registryOf_def)

section \<open>A failing rule maker\<close>

text \<open>
  C6: when a rule maker returns an error, \<open>CreateMakefile\<close> returns at once with no
  makefile and the error \<open>rule maker NAME: ERR\<close>, where NAME is the name the failing
  maker is registered under; the makers called are exactly those up to the failing
  one, so no later maker is called. The failing maker is the one after the prefix
  \<open>ms1\<close> of makers that all returned rules.
\<close>

theorem CreateMakefile_maker_error:
  assumes "registered reg"
    and "orderedRuleMakers reg = ms1 @ m # ms2"
    and "makerLoop W bs c opt (filepath_Join W (BuildDataDirName W) commitID)
           (ruleMakerNames reg) ms1 0 [] [] = (tr, Inr acc)"
    and "m c (filepath_Join W (BuildDataDirName W) commitID) acc opt = Inl err"
  shows "CreateMakefile W reg bs commitID vcsType c opt =
           ([0 ..< Suc (length ms1)],
            Inl (Error (''rule maker '' @ ruleMakerNames reg ! length ms1 @ '': '' @ err))) \<and>
         RuleMakers reg (ruleMakerNames reg ! length ms1) = Some m"
proof -
  from assms(2) have k: "length ms1 < length (orderedRuleMakers reg)" by simp
  from registered_nth[OF assms(1) k] assms(2)
  have lt: "length ms1 < length (ruleMakerNames reg)"
    and nm: "RuleMakers reg (ruleMakerNames reg ! length ms1) = Some m"
    by simp_all
  from makerLoop_called[OF assms(3)] have tr: "tr = [0 ..< length ms1]" by simp
  from lt assms(4) tr show ?thesis
    by (simp add: CreateMakefile_reaches[OF assms(2,3)] nm)
qed

theorem CreateMakefile_maker_error_witness:
  "registered (registryOf [(''A'', makerA), (''F'', makerFail), (''B'', makerB)]) \<and>
   makerLoop worldPrior () () cacheOn ''.srclib-cache/c1'' [''A'', ''F'', ''B''] [makerA] 0 [] [] =
     ([0], Inr [BasicRule ''out/a.json'' [] [''gen a'']]) \<and>
   makerFail () ''.srclib-cache/c1'' [BasicRule ''out/a.json'' [] [''gen a'']] cacheOn =
     Inl ''no toolchain'' \<and>
   CreateMakefile worldPrior (registryOf [(''A'', makerA), (''F'', makerFail), (''B'', makerB)])
       () ''c1'' ''git'' () cacheOn =
     ([0, 1], Inl (Error ''rule maker F: no toolchain''))"
proof -
  let ?reg = "registryOf [(''A'', makerA), (''F'', makerFail), (''B'', makerB)]"
  have n: "ruleMakerNames ?reg = [''A'', ''F'', ''B'']"
    by (simp add: registryOf_def)
  have r: "registered ?reg"
    by (auto simp: registered_def registryOf_def)
  have o: "orderedRuleMakers ?reg = [makerA] @ makerFail # [makerB]"
    by (simp add: registryOf_def)
  have l: "makerLoop worldPrior () () cacheOn ''.srclib-cache/c1'' [''A'', ''F'', ''B''] [makerA] 0 [] [] =
             ([0], Inr [BasicRule ''out/a.json'' [] [''gen a'']])"
    by (simp add: makerA_def cacheOn_def cacheRewrite_def replaceRule_def split: prod.splits)
  have e: "makerFail () ''.srclib-cache/c1'' [BasicRule ''out/a.json'' [] [''gen a'']] cacheOn =
             Inl ''no toolchain''"
    by (simp add: makerFail_def)
  have "CreateMakefile worldPrior ?reg () ''c1'' ''git'' () cacheOn =
          ([0 ..< Suc (length [makerA])],
           Inl (Error (''rule maker '' @ ruleMakerNames ?reg ! length [makerA] @ '': '' @ ''no toolchain'')))"
    using CreateMakefile_maker_error
            [of ?reg "[makerA]" makerFail "[makerB]" worldPrior "()" "()" cacheOn "''c1''"
                "[0]" "[BasicRule ''out/a.json'' [] [''gen a'']]" "''no toolchain''" "''git''"]
      r o l e unfolding exDir n by blast
  then have "CreateMakefile worldPrior ?reg () ''c1'' ''git'' () cacheOn =
          ([0, 1], Inl (Error ''rule maker F: no toolchain''))"
    by (simp add: n)
  with r l e show ?thesis by blast
qed

section \<open>Cache rewriting without a previous build\<close>

text \<open>
  C1: with \<open>NoCache\<close> false, a batch for which no previous revision is selected (the
  revision listing fails, or the diff fails, or no candidate has build output) passes
  through unmodified, and the plan has no \<open>cachedRule\<close> from it. The code does
  otherwise: the replacement loop of line 117 does not read \<open>prevRev\<close>. In each of
  the three worlds no previous revision is selected (\<open>prevRev\<close> stays empty), and the
  rule of maker B, whose source unit has a \<open>CachedRev\<close>, is replaced by a
  \<open>cachedRule\<close> all the same.
\<close>

theorem CreateMakefile_rewrites_without_previous_build:
  "findPrevRev worldNoListing () = ([], []) \<and>
   findPrevRev worldNoOutput () = ([], []) \<and>
   findPrevRev worldNoDiff () = ([], []) \<and>
   snd (CreateMakefile worldNoListing (registryOf [(''B'', makerB)]) () ''c1'' ''git'' () cacheOn) =
     Inr \<lparr>Rules =
       [BasicRule ''all'' [''.srclib-cache/c1/out/b.json''] [],
        cachedRule ''.srclib-cache/0123456789abcdef0123456789abcdef01234567/out/b.json''
          ''.srclib-cache/c1/out/b.json'' (Some \<lparr>CachedRev = exRev\<rparr>) [''b.go''],
        BasicRule ''.DELETE_ON_ERROR'' [] []]\<rparr> \<and>
   CreateMakefile worldNoOutput (registryOf [(''B'', makerB)]) () ''c1'' ''git'' () cacheOn =
     CreateMakefile worldNoListing (registryOf [(''B'', makerB)]) () ''c1'' ''git'' () cacheOn \<and>
   CreateMakefile worldNoDiff (registryOf [(''B'', makerB)]) () ''c1'' ''git'' () cacheOn =
     CreateMakefile worldNoListing (registryOf [(''B'', makerB)]) () ''c1'' ''git'' () cacheOn"
  by (simp add: ex_defs run_defs)

section \<open>The cached path\<close>

text \<open>
  C2: with \<open>NoCache\<close> false, every rule whose source unit has a non-empty
  \<open>CachedRev\<close> is replaced by a \<open>cachedRule\<close>; when the target is not recognised as
  lying under the build-data directory, the cached path is the target prefixed with
  \<open>..\<close> and the revision. For a target of one segment the code does not get there:
  \<open>strings.Split\<close> returns one element, \<open>p[0:2]\<close> is out of bounds, and
  \<open>CreateMakefile\<close> panics instead of returning the plan with the rule copied from
  \<open>../c0/b.json\<close>. (For targets with a slash the replacement is as the claim says:
  lemma \<open>replaceRule_eligible\<close>.)
\<close>

theorem CreateMakefile_one_segment_target_example:
  "strings_Split ''b.json'' CHR ''/'' = [''b.json''] \<and>
   cachedPathOf ''.srclib-cache/c1'' ''b.json'' ''c0'' = Inl BoundsError \<and>
   CreateMakefile worldPrior (registryOf [(''F'', makerFlat)]) () ''c1'' ''git'' () cacheOn =
     ([0], Inl (Panic BoundsError))"
  by (simp add: ex_defs run_defs)

section \<open>What cache rewriting keeps\<close>

text \<open>
  C3: cache rewriting changes neither the set nor the order of the targets of a batch:
  the list of targets of the batch it returns is the list of targets of the batch it
  was given, and so is the list of prerequisite lists. Every rule of the result is
  either the rule given or a \<open>cachedRule\<close> with the target, the prerequisites and the
  source unit of the rule it replaces; what differs is the recipe. (A batch on which
  the rewriting panics returns nothing; \<open>replaceRules_total\<close> says when it returns.)
\<close>

theorem cacheRewrite_keeps_targets:
  assumes "cacheRewrite W bs dir rules = Inr rules'"
  shows "map Target rules' = map Target rules \<and>
         map Prereqs rules' = map Prereqs rules \<and>
         (\<forall>i<length rules. rules' ! i = rules ! i \<or>
            (\<exists>cp u. rules' ! i = cachedRule cp (Target (rules ! i)) u (Prereqs (rules ! i)) \<and>
                    SourceUnit_of (rules ! i) = Some u))"
proof -
  from assms have rr: "replaceRules dir rules = Inr rules'"
    by (simp add: cacheRewrite_eq)
  note nth = replaceRules_nth[OF rr]
  have each: "\<forall>i<length rules. rules' ! i = rules ! i \<or>
            (\<exists>cp u. rules' ! i = cachedRule cp (Target (rules ! i)) u (Prereqs (rules ! i)) \<and>
                    SourceUnit_of (rules ! i) = Some u)"
    using nth replaceRule_cases by blast
  then have "\<forall>i<length rules. Target (rules' ! i) = Target (rules ! i) \<and>
                               Prereqs (rules' ! i) = Prereqs (rules ! i)"
    by fastforce
  with nth have "map Target rules' = map Target rules" "map Prereqs rules' = map Prereqs rules"
    by (auto intro!: nth_equalityI)
  with each show ?thesis by blast
qed

theorem cacheRewrite_keeps_targets_witness:
  "cacheRewrite worldPrior () ''.srclib-cache/c1''
     [BasicRule ''out/a.json'' [] [''gen a''],
      UnitRule ''.srclib-cache/c1/out/b.json'' [''b.go''] [''gen b''] (Some \<lparr>CachedRev = ''c0''\<rparr>),
      UnitRule ''out/e.json'' [''e.go''] [''gen e''] (Some \<lparr>CachedRev = []\<rparr>)] =
   Inr [BasicRule ''out/a.json'' [] [''gen a''],
        cachedRule ''.srclib-cache/c0/out/b.json'' ''.srclib-cache/c1/out/b.json''
          (Some \<lparr>CachedRev = ''c0''\<rparr>) [''b.go''],
        UnitRule ''out/e.json'' [''e.go''] [''gen e''] (Some \<lparr>CachedRev = []\<rparr>)] \<and>
   map Target
       [BasicRule ''out/a.json'' [] [''gen a''],
        cachedRule ''.srclib-cache/c0/out/b.json'' ''.srclib-cache/c1/out/b.json''
          (Some \<lparr>CachedRev = ''c0''\<rparr>) [''b.go''],
        UnitRule ''out/e.json'' [''e.go''] [''gen e''] (Some \<lparr>CachedRev = []\<rparr>)] =
     [''out/a.json'', ''.srclib-cache/c1/out/b.json'', ''out/e.json''] \<and>
   map Prereqs
       [BasicRule ''out/a.json'' [] [''gen a''],
        cachedRule ''.srclib-cache/c0/out/b.json'' ''.srclib-cache/c1/out/b.json''
          (Some \<lparr>CachedRev = ''c0''\<rparr>) [''b.go''],
        UnitRule ''out/e.json'' [''e.go''] [''gen e''] (Some \<lparr>CachedRev = []\<rparr>)] =
     [[], [''b.go''], [''e.go'']]"
proof -
  have run: "cacheRewrite worldPrior () ''.srclib-cache/c1''
     [BasicRule ''out/a.json'' [] [''gen a''],
      UnitRule ''.srclib-cache/c1/out/b.json'' [''b.go''] [''gen b''] (Some \<lparr>CachedRev = ''c0''\<rparr>),
      UnitRule ''out/e.json'' [''e.go''] [''gen e''] (Some \<lparr>CachedRev = []\<rparr>)] =
   Inr [BasicRule ''out/a.json'' [] [''gen a''],
        cachedRule ''.srclib-cache/c0/out/b.json'' ''.srclib-cache/c1/out/b.json''
          (Some \<lparr>CachedRev = ''c0''\<rparr>) [''b.go''],
        UnitRule ''out/e.json'' [''e.go''] [''gen e''] (Some \<lparr>CachedRev = []\<rparr>)]"
    by (simp add: ex_defs run_defs)
  from cacheRewrite_keeps_targets [OF run] run show ?thesis
    by simp
qed

section \<open>NoCache\<close>

text \<open>
  C4: when \<open>NoCache\<close> is true, the plan returned by \<open>CreateMakefile\<close> has no
  \<open>cachedRule\<close>, whatever the \<open>CachedRev\<close> of the source units and whatever the
  revisions and build outputs of the world are. The type \<open>cachedRule\<close> is private
  to the package and built at line 143 only, which is the hypothesis on the makers:
  a maker that is given no \<open>cachedRule\<close> returns none.
\<close>

theorem CreateMakefile_NoCache_no_cachedRule:
  assumes "NoCache opt"
    and "\<forall>m\<in>set (orderedRuleMakers reg). \<forall>existing rules.
           (\<forall>r\<in>set existing. \<not> is_cachedRule r) \<longrightarrow>
           m c (filepath_Join W (BuildDataDirName W) commitID) existing opt = Inr rules \<longrightarrow>
           (\<forall>r\<in>set rules. \<not> is_cachedRule r)"
    and "snd (CreateMakefile W reg bs commitID vcsType c opt) = Inr mf"
  shows "filter is_cachedRule (Rules mf) = []"
proof -
  from CreateMakefile_Inr[OF assms(3)] obtain tr allRules where
    loop: "makerLoop W bs c opt (filepath_Join W (BuildDataDirName W) commitID)
             (ruleMakerNames reg) (orderedRuleMakers reg) 0 [] [] = (tr, Inr allRules)" and
    mf: "Rules mf = BasicRule ''all'' (map Target allRules) [] # allRules @
                        [BasicRule ''.DELETE_ON_ERROR'' [] []]"
    by blast
  have "\<forall>r\<in>set allRules. \<not> is_cachedRule r"
    by (rule makerLoop_NoCache[OF assms(1,2) _ loop]) simp
  with mf show ?thesis
    by (simp add: filter_empty_conv)
qed

theorem CreateMakefile_NoCache_no_cachedRule_witness:
  "NoCache cacheOff \<and>
   findPrevRev worldPrior () = (''c0'', [''b.go'']) \<and>
   snd (CreateMakefile worldPrior (registryOf [(''A'', makerA), (''B'', makerB)])
          () ''c1'' ''git'' () cacheOff) =
     Inr \<lparr>Rules =
       [BasicRule ''all'' [''out/a.json'', ''.srclib-cache/c1/out/b.json''] [],
        BasicRule ''out/a.json'' [] [''gen a''],
        UnitRule ''.srclib-cache/c1/out/b.json'' [''b.go''] [''gen b''] (Some \<lparr>CachedRev = exRev\<rparr>),
        BasicRule ''.DELETE_ON_ERROR'' [] []]\<rparr> \<and>
   filter is_cachedRule
       [BasicRule ''all'' [''out/a.json'', ''.srclib-cache/c1/out/b.json''] [],
        BasicRule ''out/a.json'' [] [''gen a''],
        UnitRule ''.srclib-cache/c1/out/b.json'' [''b.go''] [''gen b''] (Some \<lparr>CachedRev = exRev\<rparr>),
        BasicRule ''.DELETE_ON_ERROR'' [] []] = []"
proof -
  let ?reg = "registryOf [(''A'', makerA), (''B'', makerB)]"
  have off: "NoCache cacheOff"
    by (simp add: cacheOff_def)
  have prev: "findPrevRev worldPrior () = (''c0'', [''b.go''])"
    by (simp add: ex_defs run_defs)
  have makers: "\<forall>m\<in>set (orderedRuleMakers ?reg). \<forall>existing rules.
           (\<forall>r\<in>set existing. \<not> is_cachedRule r) \<longrightarrow>
           m () (filepath_Join worldPrior (BuildDataDirName worldPrior) ''c1'') existing cacheOff = Inr rules \<longrightarrow>
           (\<forall>r\<in>set rules. \<not> is_cachedRule r)"
    by (auto simp: registryOf_def makerA_def makerB_def)
  have run: "snd (CreateMakefile worldPrior ?reg () ''c1'' ''git'' () cacheOff) =
     Inr \<lparr>Rules =
       [BasicRule ''all'' [''out/a.json'', ''.srclib-cache/c1/out/b.json''] [],
        BasicRule ''out/a.json'' [] [''gen a''],
        UnitRule ''.srclib-cache/c1/out/b.json'' [''b.go''] [''gen b''] (Some \<lparr>CachedRev = exRev\<rparr>),
        BasicRule ''.DELETE_ON_ERROR'' [] []]\<rparr>"
    by (simp add: ex_defs run_defs)
  from CreateMakefile_NoCache_no_cachedRule [OF off makers run] off prev run show ?thesis
    by simp
qed

section \<open>The shape of the plan\<close>

text \<open>
  C5, with the target of the marker as line 166 writes it: the plan of a successful
  run is the rule \<open>all\<close>, then the rules of the makers in the order they were made,
  then, as the final rule, the marker rule whose target is the upper-case string
  \<open>.DELETE_ON_ERROR\<close> and which has no prerequisites and no recipes; the prerequisites
  of \<open>all\<close> are the targets of the makers' rules, in that order. The makers' rules are
  the concatenation of one batch per maker, in registration order: the k-th batch is
  what the k-th maker returns when given the batches before it, passed through the
  cache rewriting unless \<open>NoCache\<close> is set.
\<close>

theorem CreateMakefile_plan_shape:
  assumes "snd (CreateMakefile W reg bs commitID vcsType c opt) = Inr mf"
  shows "\<exists>batches.
           length batches = length (orderedRuleMakers reg) \<and>
           (\<forall>k<length (orderedRuleMakers reg). \<exists>rules.
              (orderedRuleMakers reg ! k) c (filepath_Join W (BuildDataDirName W) commitID)
                 (concat (take k batches)) opt = Inr rules \<and>
              (if \<not> NoCache opt
               then cacheRewrite W bs (filepath_Join W (BuildDataDirName W) commitID) rules
               else Inr rules) = Inr (batches ! k)) \<and>
           Rules mf = BasicRule ''all'' (map Target (concat batches)) [] # concat batches @
                        [BasicRule ''.DELETE_ON_ERROR'' [] []]"
proof -
  from CreateMakefile_Inr[OF assms] obtain tr allRules where
    loop: "makerLoop W bs c opt (filepath_Join W (BuildDataDirName W) commitID)
             (ruleMakerNames reg) (orderedRuleMakers reg) 0 [] [] = (tr, Inr allRules)" and
    mf: "Rules mf = BasicRule ''all'' (map Target allRules) [] # allRules @
                        [BasicRule ''.DELETE_ON_ERROR'' [] []]"
    by blast
  from makerLoop_batches[OF loop] obtain batches where
    "length batches = length (orderedRuleMakers reg)" and
    "allRules = concat batches" and
    "\<forall>k<length (orderedRuleMakers reg). \<exists>rules.
              (orderedRuleMakers reg ! k) c (filepath_Join W (BuildDataDirName W) commitID)
                 (concat (take k batches)) opt = Inr rules \<and>
              (if \<not> NoCache opt
               then cacheRewrite W bs (filepath_Join W (BuildDataDirName W) commitID) rules
               else Inr rules) = Inr (batches ! k)"
    by auto
  with mf show ?thesis
    by blast
qed

theorem CreateMakefile_plan_shape_witness:
  "snd (CreateMakefile worldPrior (registryOf [(''A'', makerA), (''B'', makerB)])
          () ''c1'' ''git'' () cacheOn) =
     Inr \<lparr>Rules =
       [BasicRule ''all'' [''out/a.json'', ''.srclib-cache/c1/out/b.json''] [],
        BasicRule ''out/a.json'' [] [''gen a''],
        cachedRule ''.srclib-cache/0123456789abcdef0123456789abcdef01234567/out/b.json''
          ''.srclib-cache/c1/out/b.json'' (Some \<lparr>CachedRev = exRev\<rparr>) [''b.go''],
        BasicRule ''.DELETE_ON_ERROR'' [] []]\<rparr> \<and>
   (\<exists>batches. length batches = 2 \<and>
      [BasicRule ''all'' [''out/a.json'', ''.srclib-cache/c1/out/b.json''] [],
        BasicRule ''out/a.json'' [] [''gen a''],
        cachedRule ''.srclib-cache/0123456789abcdef0123456789abcdef01234567/out/b.json''
          ''.srclib-cache/c1/out/b.json'' (Some \<lparr>CachedRev = exRev\<rparr>) [''b.go''],
        BasicRule ''.DELETE_ON_ERROR'' [] []] =
      BasicRule ''all'' (map Target (concat batches)) [] # concat batches @
        [BasicRule ''.DELETE_ON_ERROR'' [] []])"
proof -
  let ?reg = "registryOf [(''A'', makerA), (''B'', makerB)]"
  have run: "snd (CreateMakefile worldPrior ?reg () ''c1'' ''git'' () cacheOn) =
     Inr \<lparr>Rules =
       [BasicRule ''all'' [''out/a.json'', ''.srclib-cache/c1/out/b.json''] [],
        BasicRule ''out/a.json'' [] [''gen a''],
        cachedRule ''.srclib-cache/0123456789abcdef0123456789abcdef01234567/out/b.json''
          ''.srclib-cache/c1/out/b.json'' (Some \<lparr>CachedRev = exRev\<rparr>) [''b.go''],
        BasicRule ''.DELETE_ON_ERROR'' [] []]\<rparr>"
    by (simp add: ex_defs run_defs)
  have len: "length (orderedRuleMakers ?reg) = 2"
    by (simp add: registryOf_def)
  from CreateMakefile_plan_shape [OF run] obtain batches where
    "length batches = length (orderedRuleMakers ?reg)" and
    "Rules \<lparr>Rules =
       [BasicRule ''all'' [''out/a.json'', ''.srclib-cache/c1/out/b.json''] [],
        BasicRule ''out/a.json'' [] [''gen a''],
        cachedRule ''.srclib-cache/0123456789abcdef0123456789abcdef01234567/out/b.json''
          ''.srclib-cache/c1/out/b.json'' (Some \<lparr>CachedRev = exRev\<rparr>) [''b.go''],
        BasicRule ''.DELETE_ON_ERROR'' [] []]\<rparr> =
      BasicRule ''all'' (map Target (concat batches)) [] # concat batches @
        [BasicRule ''.DELETE_ON_ERROR'' [] []]"
    by blast
  with len have "\<exists>batches. length batches = 2 \<and>
      [BasicRule ''all'' [''out/a.json'', ''.srclib-cache/c1/out/b.json''] [],
        BasicRule ''out/a.json'' [] [''gen a''],
        cachedRule ''.srclib-cache/0123456789abcdef0123456789abcdef01234567/out/b.json''
          ''.srclib-cache/c1/out/b.json'' (Some \<lparr>CachedRev = exRev\<rparr>) [''b.go''],
        BasicRule ''.DELETE_ON_ERROR'' [] []] =
      BasicRule ''all'' (map Target (concat batches)) [] # concat batches @
        [BasicRule ''.DELETE_ON_ERROR'' [] []]"
    by (intro exI[of _ batches]) simp
  with run show ?thesis by blast
qed

text \<open>
  C5 as it is written names the final rule \<open>.delete-on-error\<close>. No plan ends with a
  rule of that target: in the run below, with one maker and caching off, the final
  rule is \<open>BasicRule ''.DELETE_ON_ERROR'' [] []\<close>, and its target is not the lower-case
  string.
\<close>

theorem CreateMakefile_marker_target_counterexample:
  "snd (CreateMakefile worldNoOutput (registryOf [(''A'', makerA)]) () ''c1'' ''git'' () cacheOff) =
     Inr \<lparr>Rules =
       [BasicRule ''all'' [''out/a.json''] [],
        BasicRule ''out/a.json'' [] [''gen a''],
        BasicRule ''.DELETE_ON_ERROR'' [] []]\<rparr> \<and>
   last [BasicRule ''all'' [''out/a.json''] [],
         BasicRule ''out/a.json'' [] [''gen a''],
         BasicRule ''.DELETE_ON_ERROR'' [] []] = BasicRule ''.DELETE_ON_ERROR'' [] [] \<and>
   Target (last [BasicRule ''all'' [''out/a.json''] [],
                 BasicRule ''out/a.json'' [] [''gen a''],
                 BasicRule ''.DELETE_ON_ERROR'' [] []]) \<noteq> ''.delete-on-error''"
  by (simp add: ex_defs run_defs)

section \<open>Panics of the replacement loop\<close>

text \<open>
  C9: with caching enabled, a rule of a maker's batch whose source unit has a non-empty
  \<open>CachedRev\<close> and whose target has no slash makes the path rewriting panic with a
  bounds error (\<open>p[0:2]\<close> on a slice of one element), and \<open>CreateMakefile\<close> panics:
  it returns neither a plan nor an error value. The makers before \<open>m\<close> are those of
  the prefix \<open>ms1\<close>, which all returned; the panic reported is the one of the first
  rule of the batch that panics.
\<close>

theorem CreateMakefile_one_segment_target_panics:
  assumes "\<not> NoCache opt"
    and "orderedRuleMakers reg = ms1 @ m # ms2"
    and "length ms1 < length (ruleMakerNames reg)"
    and "makerLoop W bs c opt (filepath_Join W (BuildDataDirName W) commitID)
           (ruleMakerNames reg) ms1 0 [] [] = (tr, Inr acc)"
    and "m c (filepath_Join W (BuildDataDirName W) commitID) acc opt = Inr rules"
    and "rule \<in> set rules"
    and "SourceUnit_of rule = Some (Some u)"
    and "CachedRev u \<noteq> []"
    and "CHR ''/'' \<notin> set (Target rule)"
  shows "replaceRule (filepath_Join W (BuildDataDirName W) commitID) rule = Inl BoundsError \<and>
         (\<exists>p. CreateMakefile W reg bs commitID vcsType c opt = (tr @ [length ms1], Inl (Panic p)) \<and>
              (p = NilDereference \<or> p = BoundsError))"
proof -
  from assms(7,8,9)
  have one: "replaceRule (filepath_Join W (BuildDataDirName W) commitID) rule = Inl BoundsError"
    by (simp add: replaceRule_def cachedPathOf_one_segment)
  from CreateMakefile_batch_panic[OF assms(1-6) one] one show ?thesis by blast
qed

theorem CreateMakefile_one_segment_target_panics_witness:
  "\<not> NoCache cacheOn \<and>
   makerLoop worldPrior () () cacheOn ''.srclib-cache/c1'' [''A'', ''F'', ''B''] [makerA] 0 [] [] =
     ([0], Inr [BasicRule ''out/a.json'' [] [''gen a'']]) \<and>
   makerFlat () ''.srclib-cache/c1'' [BasicRule ''out/a.json'' [] [''gen a'']] cacheOn =
     Inr [UnitRule ''b.json'' [''b.go''] [''gen b''] (Some \<lparr>CachedRev = ''c0''\<rparr>)] \<and>
   SourceUnit_of (UnitRule ''b.json'' [''b.go''] [''gen b''] (Some \<lparr>CachedRev = ''c0''\<rparr>)) = Some (Some \<lparr>CachedRev = ''c0''\<rparr>) \<and>
   CachedRev \<lparr>CachedRev = ''c0''\<rparr> \<noteq> [] \<and>
   CHR ''/'' \<notin> set (Target (UnitRule ''b.json'' [''b.go''] [''gen b''] (Some \<lparr>CachedRev = ''c0''\<rparr>))) \<and>
   replaceRule ''.srclib-cache/c1'' (UnitRule ''b.json'' [''b.go''] [''gen b''] (Some \<lparr>CachedRev = ''c0''\<rparr>)) = Inl BoundsError \<and>
   (\<exists>p. CreateMakefile worldPrior (registryOf [(''A'', makerA), (''F'', makerFlat), (''B'', makerB)])
           () ''c1'' ''git'' () cacheOn = ([0, 1], Inl (Panic p)) \<and>
        (p = NilDereference \<or> p = BoundsError))"
proof -
  let ?reg = "registryOf [(''A'', makerA), (''F'', makerFlat), (''B'', makerB)]"
  let ?rule = "UnitRule ''b.json'' [''b.go''] [''gen b''] (Some \<lparr>CachedRev = ''c0''\<rparr>)"
  have n: "ruleMakerNames ?reg = [''A'', ''F'', ''B'']"
    by (simp add: registryOf_def)
  have on: "\<not> NoCache cacheOn"
    by (simp add: cacheOn_def)
  have o: "orderedRuleMakers ?reg = [makerA] @ makerFlat # [makerB]"
    by (simp add: registryOf_def)
  have lt: "length [makerA] < length [''A'', ''F'', ''B'']"
    by simp
  have l: "makerLoop worldPrior () () cacheOn ''.srclib-cache/c1'' [''A'', ''F'', ''B''] [makerA] 0 [] [] =
             ([0], Inr [BasicRule ''out/a.json'' [] [''gen a'']])"
    by (simp add: makerA_def cacheOn_def cacheRewrite_def replaceRule_def split: prod.splits)
  have b: "makerFlat () ''.srclib-cache/c1'' [BasicRule ''out/a.json'' [] [''gen a'']] cacheOn = Inr [?rule]"
    by (simp add: makerFlat_def)
  have mem: "?rule \<in> set [?rule]"
    by simp
  have su: "SourceUnit_of ?rule = Some (Some \<lparr>CachedRev = ''c0''\<rparr>)"
    by simp
  have cr: "CachedRev \<lparr>CachedRev = ''c0''\<rparr> \<noteq> []"
    by simp
  have one: "CHR ''/'' \<notin> set (Target ?rule)"
    by simp
  from CreateMakefile_one_segment_target_panics [of cacheOn ?reg "[makerA]" makerFlat "[makerB]" worldPrior "()" "()" "''c1''" "[0]"
               "[BasicRule ''out/a.json'' [] [''gen a'']]" "[?rule]" ?rule "\<lparr>CachedRev = ''c0''\<rparr>" "''git''", unfolded exDir n,
               OF on o lt l b mem su cr one]
  have "replaceRule ''.srclib-cache/c1'' ?rule = Inl BoundsError \<and>
        (\<exists>p. CreateMakefile worldPrior ?reg () ''c1'' ''git'' () cacheOn = ([0, 1], Inl (Panic p)) \<and>
             (p = NilDereference \<or> p = BoundsError))"
    by simp
  with on l b su cr one show ?thesis by blast
qed

text \<open>
  C10: with caching enabled, a rule of a maker's batch that has the \<open>SourceUnit\<close>
  method and returns nil from it makes \<open>CreateMakefile\<close> panic: reading
  \<open>u.CachedRev\<close> dereferences the nil pointer. The panic reported is the one of the
  first rule of the batch that panics.
\<close>

theorem CreateMakefile_nil_SourceUnit_panics:
  assumes "\<not> NoCache opt"
    and "orderedRuleMakers reg = ms1 @ m # ms2"
    and "length ms1 < length (ruleMakerNames reg)"
    and "makerLoop W bs c opt (filepath_Join W (BuildDataDirName W) commitID)
           (ruleMakerNames reg) ms1 0 [] [] = (tr, Inr acc)"
    and "m c (filepath_Join W (BuildDataDirName W) commitID) acc opt = Inr rules"
    and "rule \<in> set rules"
    and "SourceUnit_of rule = Some None"
  shows "replaceRule (filepath_Join W (BuildDataDirName W) commitID) rule = Inl NilDereference \<and>
         (\<exists>p. CreateMakefile W reg bs commitID vcsType c opt = (tr @ [length ms1], Inl (Panic p)) \<and>
              (p = NilDereference \<or> p = BoundsError))"
proof -
  from assms(7)
  have nil: "replaceRule (filepath_Join W (BuildDataDirName W) commitID) rule = Inl NilDereference"
    by (simp add: replaceRule_def)
  from CreateMakefile_batch_panic[OF assms(1-6) nil] nil show ?thesis by blast
qed

theorem CreateMakefile_nil_SourceUnit_panics_witness:
  "\<not> NoCache cacheOn \<and>
   makerLoop worldPrior () () cacheOn ''.srclib-cache/c1'' [''A'', ''N'', ''B''] [makerA] 0 [] [] =
     ([0], Inr [BasicRule ''out/a.json'' [] [''gen a'']]) \<and>
   makerNil () ''.srclib-cache/c1'' [BasicRule ''out/a.json'' [] [''gen a'']] cacheOn =
     Inr [UnitRule ''out/n.json'' [] [''gen n''] None] \<and>
   SourceUnit_of (UnitRule ''out/n.json'' [] [''gen n''] None) = Some None \<and>
   replaceRule ''.srclib-cache/c1'' (UnitRule ''out/n.json'' [] [''gen n''] None) = Inl NilDereference \<and>
   (\<exists>p. CreateMakefile worldPrior (registryOf [(''A'', makerA), (''N'', makerNil), (''B'', makerB)])
           () ''c1'' ''git'' () cacheOn = ([0, 1], Inl (Panic p)) \<and>
        (p = NilDereference \<or> p = BoundsError))"
proof -
  let ?reg = "registryOf [(''A'', makerA), (''N'', makerNil), (''B'', makerB)]"
  let ?rule = "UnitRule ''out/n.json'' [] [''gen n''] None"
  have n: "ruleMakerNames ?reg = [''A'', ''N'', ''B'']"
    by (simp add: registryOf_def)
  have on: "\<not> NoCache cacheOn"
    by (simp add: cacheOn_def)
  have o: "orderedRuleMakers ?reg = [makerA] @ makerNil # [makerB]"
    by (simp add: registryOf_def)
  have lt: "length [makerA] < length [''A'', ''N'', ''B'']"
    by simp
  have l: "makerLoop worldPrior () () cacheOn ''.srclib-cache/c1'' [''A'', ''N'', ''B''] [makerA] 0 [] [] =
             ([0], Inr [BasicRule ''out/a.json'' [] [''gen a'']])"
    by (simp add: makerA_def cacheOn_def cacheRewrite_def replaceRule_def split: prod.splits)
  have b: "makerNil () ''.srclib-cache/c1'' [BasicRule ''out/a.json'' [] [''gen a'']] cacheOn = Inr [?rule]"
    by (simp add: makerNil_def)
  have mem: "?rule \<in> set [?rule]"
    by simp
  have su: "SourceUnit_of ?rule = Some None"
    by simp
  from CreateMakefile_nil_SourceUnit_panics [of cacheOn ?reg "[makerA]" makerNil "[makerB]" worldPrior "()" "()" "''c1''" "[0]"
               "[BasicRule ''out/a.json'' [] [''gen a'']]" "[?rule]" ?rule "''git''", unfolded exDir n,
               OF on o lt l b mem su]
  have "replaceRule ''.srclib-cache/c1'' ?rule = Inl NilDereference \<and>
        (\<exists>p. CreateMakefile worldPrior ?reg () ''c1'' ''git'' () cacheOn = ([0, 1], Inl (Panic p)) \<and>
             (p = NilDereference \<or> p = BoundsError))"
    by simp
  with on l b su show ?thesis by blast
qed

end
